theory Spec2Isabelle
  imports Main "HOL-Library.Word"
begin

section \<open>The coordinator of src/engine/coordinator.cc\<close>

text \<open>
  The platform-independent coordinator keeps a table of the resources that have registered
  with it, \<open>associated_resources_\<close>, from the resource's UUID to the pair of its resource
  descriptor and the time it was last heard of. Messages arrive in a \<open>BaseMessage\<close>, which
  may carry a registration extension, a heartbeat extension, both or neither. The main loop
  of \<open>Run\<close> waits for messages until the static flag \<open>exit_\<close> is set. A name cannot
  end in an underscore here: the members \<open>associated_resources_\<close> and \<open>exit_\<close> are the
  fields \<open>associated_resources\<close> and \<open>exit_flag\<close>.

  The model passes the coordinator's state explicitly. What the source reads from its
  environment is part of that state: the values that successive calls of
  \<open>GetCurrentTimestamp()\<close> return, and the verbosity that gates \<open>VLOG\<close>. What the source
  does to its environment is recorded in the state as well: the lines it logs and the calls
  it makes on the messaging adapter \<open>m_adapter_\<close>.
\<close>

subsection \<open>Data\<close>

type_synonym timestamp = "64 word"

datatype severity = INFO | WARNING

text \<open>One constructor for each logging statement of the file, with the values it prints.\<close>

datatype log_message =
    HelloFromMainLoop
  | WaitingForNextMessage
  | AsyncReceiveError string
  | ReceivedBytes nat
  | HeartbeatFromUnknown string
  | HeartbeatFromResource string timestamp
  | RegisteringNewResource string
  | RegistrationAlreadyKnown string
  | NewJob string
  | ShuttingDown string

datatype adapter_call =
    Listen string
  | RegisterAsyncMessageReceiptCallback
  | AdapterAwaitNextMessage
  | StopListen

text \<open>\<open>CHECK\<close> aborts the process when its condition is false.\<close>

datatype error = CheckFailed

record 'd RegistrationMessage =
  reg_uuid :: string
  res_desc :: 'd

record HeartbeatMessage =
  hb_uuid :: string

text \<open>
  A \<open>BaseMessage\<close> is a protocol buffer with optional extensions. \<open>HasExtension\<close> is
  \<open>\<noteq> None\<close>, \<open>GetExtension\<close> is the value below \<open>Some\<close>. The functions on messages are
  defined on the record scheme, so a message may carry extensions the coordinator does not
  look at.
\<close>

record 'd BaseMessage =
  register_extn :: "'d RegistrationMessage option"
  heartbeat_extn :: "HeartbeatMessage option"

text \<open>\<open>boost::system::error_code\<close>: it converts to \<open>true\<close> when its value is not zero.\<close>

record error_code =
  ec_value :: int
  ec_message :: string

record ('u, 'd) Coordinator =
  associated_resources :: "('u \<times> ('d \<times> timestamp)) list"
  exit_flag :: bool
  adapter_calls :: "adapter_call list"
  glog :: "(severity \<times> log_message) list"
  timestamps :: "nat \<Rightarrow> timestamp"
  timestamps_read :: nat
  FLAGS_v :: int

subsection \<open>Logging, the clock and the adapter\<close>

definition LOG :: "severity \<Rightarrow> log_message \<Rightarrow> ('u, 'd) Coordinator \<Rightarrow> ('u, 'd) Coordinator" where
  "LOG sev msg s = s\<lparr>glog := glog s @ [(sev, msg)]\<rparr>"

text \<open>\<open>VLOG(n)\<close> logs at severity \<open>INFO\<close> when the verbosity is at least \<open>n\<close>.\<close>

definition VLOG :: "int \<Rightarrow> log_message \<Rightarrow> ('u, 'd) Coordinator \<Rightarrow> ('u, 'd) Coordinator" where
  "VLOG n msg s = (if n \<le> FLAGS_v s then LOG INFO msg s else s)"

text \<open>
  Modelled from the spec: \<open>GetCurrentTimestamp\<close> is declared in misc/utils.h, which is not
  among the sources. It returns the current time, the \<open>now\<close> of the spec's
  \<open>Register(id, descriptor, now)\<close> and \<open>Heartbeat(id, now)\<close>. Here the \<open>k\<close>-th call
  returns \<open>timestamps s k\<close>.
\<close>

definition GetCurrentTimestamp :: "('u, 'd) Coordinator \<Rightarrow> timestamp \<times> ('u, 'd) Coordinator" where
  "GetCurrentTimestamp s =
     (timestamps s (timestamps_read s), s\<lparr>timestamps_read := Suc (timestamps_read s)\<rparr>)"

definition adapter :: "adapter_call \<Rightarrow> ('u, 'd) Coordinator \<Rightarrow> ('u, 'd) Coordinator" where
  "adapter c s = s\<lparr>adapter_calls := adapter_calls s @ [c]\<rparr>"

subsection \<open>The table of resources\<close>

text \<open>
  Modelled from the spec: \<open>FindOrNull\<close> and \<open>InsertIfNotPresent\<close> are declared in
  misc/map-util.h, which is not among the sources. The spec has
  \<open>Lookup(id) -> optional RegistrationRecord-ref\<close>, a non-owning reference to the record
  of \<open>id\<close>, and \<open>if id absent, insert\<close>. The table is a list of entries. The pointer that
  \<open>FindOrNull\<close> returns is the position of the entry with the key, \<open>None\<close> for the null
  pointer. \<open>InsertIfNotPresent\<close> adds an entry when the key has none and returns whether it
  did.
\<close>

fun FindOrNull :: "('k \<times> 'v) list \<Rightarrow> 'k \<Rightarrow> nat option" where
  "FindOrNull [] k = None"
| "FindOrNull (e # m) k =
     (if fst e = k then Some 0 else map_option Suc (FindOrNull m k))"

definition InsertIfNotPresent :: "('k \<times> 'v) list \<Rightarrow> 'k \<Rightarrow> 'v \<Rightarrow> bool \<times> ('k \<times> 'v) list" where
  "InsertIfNotPresent m k v =
     (if k \<in> set (map fst m) then (False, m) else (True, m @ [(k, v)]))"

text \<open>\<open>rdp->second\<close> and \<open>rdp->second = t\<close>, for a pointer \<open>rdp\<close> that is not null.\<close>

definition second_at :: "('k \<times> ('d \<times> timestamp)) list \<Rightarrow> nat \<Rightarrow> timestamp" where
  "second_at m rdp = snd (snd (m ! rdp))"

definition set_second_at ::
  "('k \<times> ('d \<times> timestamp)) list \<Rightarrow> nat \<Rightarrow> timestamp \<Rightarrow> ('k \<times> ('d \<times> timestamp)) list" where
  "set_second_at m rdp t = m[rdp := (fst (m ! rdp), (fst (snd (m ! rdp)), t))]"

subsection \<open>The handlers\<close>

text \<open>
  \<open>gen\<close> is \<open>boost::uuids::string_generator\<close>, which reads a UUID from its text. It belongs
  to Boost and is a parameter of the model, as is the type of UUIDs: the handlers use the
  UUID it gives as the key of the table and in no other way. What Boost does with a text
  that is no UUID is not modelled.
\<close>

definition HandleHeartbeat ::
  "(string \<Rightarrow> 'u) \<Rightarrow> HeartbeatMessage \<Rightarrow> ('u, 'd) Coordinator \<Rightarrow> ('u, 'd) Coordinator" where
  "HandleHeartbeat gen msg s =
     (let uuid = gen (hb_uuid msg) in
      case FindOrNull (associated_resources s) uuid of
        None \<Rightarrow> LOG WARNING (HeartbeatFromUnknown (hb_uuid msg)) s
      | Some rdp \<Rightarrow>
          (let s1 = LOG INFO (HeartbeatFromResource (hb_uuid msg)
                                (second_at (associated_resources s) rdp)) s;
               (now, s2) = GetCurrentTimestamp s1
           in s2\<lparr>associated_resources := set_second_at (associated_resources s2) rdp now\<rparr>))"

definition HandleRegistrationRequest ::
  "(string \<Rightarrow> 'u) \<Rightarrow> 'd RegistrationMessage \<Rightarrow> ('u, 'd) Coordinator
     \<Rightarrow> error + ('u, 'd) Coordinator" where
  "HandleRegistrationRequest gen msg s =
     (let uuid = gen (reg_uuid msg) in
      case FindOrNull (associated_resources s) uuid of
        None \<Rightarrow>
          (let s1 = LOG INFO (RegisteringNewResource (reg_uuid msg)) s;
               (now, s2) = GetCurrentTimestamp s1;
               (inserted, m) = InsertIfNotPresent (associated_resources s2) uuid
                                  (res_desc msg, now)
           in if inserted then Inr (s2\<lparr>associated_resources := m\<rparr>) else Inl CheckFailed)
      | Some rdp \<Rightarrow>
          (let s1 = LOG INFO (RegistrationAlreadyKnown (reg_uuid msg)) s;
               (now, s2) = GetCurrentTimestamp s1
           in Inr (s2\<lparr>associated_resources := set_second_at (associated_resources s2) rdp now\<rparr>)))"

definition HandleIncomingMessage ::
  "(string \<Rightarrow> 'u) \<Rightarrow> ('d, 'z) BaseMessage_scheme \<Rightarrow> ('u, 'd) Coordinator
     \<Rightarrow> error + ('u, 'd) Coordinator" where
  "HandleIncomingMessage gen bm s =
     (case (case register_extn bm of
              None \<Rightarrow> Inr s
            | Some msg \<Rightarrow> HandleRegistrationRequest gen msg s) of
        Inl e \<Rightarrow> Inl e
      | Inr s1 \<Rightarrow>
          (case heartbeat_extn bm of
             None \<Rightarrow> Inr s1
           | Some msg \<Rightarrow> Inr (HandleHeartbeat gen msg s1)))"

text \<open>
  The envelope \<open>env\<close> is given by the message it holds. Freeing the envelope is not part of
  the model.
\<close>

definition HandleRecv ::
  "(string \<Rightarrow> 'u) \<Rightarrow> error_code \<Rightarrow> nat \<Rightarrow> ('d, 'z) BaseMessage_scheme \<Rightarrow> ('u, 'd) Coordinator
     \<Rightarrow> error + ('u, 'd) Coordinator" where
  "HandleRecv gen err bytes_transferred env s =
     (if ec_value err \<noteq> 0 then Inr (LOG WARNING (AsyncReceiveError (ec_message err)) s)
      else HandleIncomingMessage gen env (VLOG 2 (ReceivedBytes bytes_transferred) s))"

definition HandleSignal :: "('u, 'd) Coordinator \<Rightarrow> ('u, 'd) Coordinator" where
  "HandleSignal s = s\<lparr>exit_flag := True\<rparr>"

definition SubmitJob ::
  "('j \<Rightarrow> string) \<Rightarrow> 'j \<Rightarrow> ('u, 'd) Coordinator \<Rightarrow> string \<times> ('u, 'd) Coordinator" where
  "SubmitJob DebugString job_descriptor s =
     (''test1234'', LOG INFO (NewJob (DebugString job_descriptor)) s)"

definition Shutdown :: "string \<Rightarrow> ('u, 'd) Coordinator \<Rightarrow> ('u, 'd) Coordinator" where
  "Shutdown reason s = (adapter StopListen (LOG INFO (ShuttingDown reason) s))\<lparr>exit_flag := True\<rparr>"

subsection \<open>The main loop\<close>

text \<open>
  Modelled from the spec: the adapter \<open>m_adapter_\<close> is not among the sources. Its
  \<open>AwaitNextMessage\<close> "blocks the caller until a message is available or a bounded timeout
  elapses", and the callback that \<open>Run\<close> registers, \<open>HandleIncomingMessage\<close>, is "invoked
  once per decoded message". The exit flag is set by "explicit shutdown call or external
  signal". One wait of the main loop is therefore given by what arrives while it lasts, in
  the order of arrival: messages, which go to the callback, termination signals, which go
  to \<open>HandleSignal\<close>, and calls of \<open>Shutdown\<close> from outside the loop.
\<close>

datatype ('d, 'z) arrival =
    Message "('d, 'z) BaseMessage_scheme"
  | Signal
  | ShutdownCall string

fun arrive ::
  "(string \<Rightarrow> 'u) \<Rightarrow> ('d, 'z) arrival \<Rightarrow> ('u, 'd) Coordinator \<Rightarrow> error + ('u, 'd) Coordinator" where
  "arrive gen (Message bm) s = HandleIncomingMessage gen bm s"
| "arrive gen Signal s = Inr (HandleSignal s)"
| "arrive gen (ShutdownCall reason) s = Inr (Shutdown reason s)"

fun arrive_all ::
  "(string \<Rightarrow> 'u) \<Rightarrow> ('d, 'z) arrival list \<Rightarrow> ('u, 'd) Coordinator
     \<Rightarrow> error + ('u, 'd) Coordinator" where
  "arrive_all gen [] s = Inr s"
| "arrive_all gen (a # as) s =
     (case arrive gen a s of Inl e \<Rightarrow> Inl e | Inr s1 \<Rightarrow> arrive_all gen as s1)"

text \<open>The second of sleep that follows the adapter's wait is not part of the model.\<close>

definition AwaitNextMessage ::
  "(string \<Rightarrow> 'u) \<Rightarrow> ('d, 'z) arrival list \<Rightarrow> ('u, 'd) Coordinator
     \<Rightarrow> error + ('u, 'd) Coordinator" where
  "AwaitNextMessage gen arrivals s =
     arrive_all gen arrivals (adapter AdapterAwaitNextMessage (VLOG 2 WaitingForNextMessage s))"

text \<open>
  The loop \<open>while (!exit_)\<close>, over the waits still to come. When the flag is not set and
  no wait is left, the loop has not returned: the result is \<open>None\<close>.
\<close>

fun main_loop ::
  "(string \<Rightarrow> 'u) \<Rightarrow> ('d, 'z) arrival list list \<Rightarrow> ('u, 'd) Coordinator
     \<Rightarrow> (error + ('u, 'd) Coordinator) option" where
  "main_loop gen [] s = (if exit_flag s then Some (Inr s) else None)"
| "main_loop gen (w # ws) s =
     (if exit_flag s then Some (Inr s)
      else case AwaitNextMessage gen w (VLOG 2 HelloFromMainLoop s) of
             Inl e \<Rightarrow> Some (Inl e)
           | Inr s1 \<Rightarrow> main_loop gen ws s1)"

definition Run ::
  "(string \<Rightarrow> 'u) \<Rightarrow> string \<Rightarrow> ('d, 'z) arrival list list \<Rightarrow> ('u, 'd) Coordinator
     \<Rightarrow> (error + ('u, 'd) Coordinator) option" where
  "Run gen FLAGS_listen_uri waits s =
     (case main_loop gen waits
             (adapter RegisterAsyncMessageReceiptCallback (adapter (Listen FLAGS_listen_uri) s)) of
        None \<Rightarrow> None
      | Some (Inl e) \<Rightarrow> Some (Inl e)
      | Some (Inr s1) \<Rightarrow> Some (Inr (Shutdown ''dropped out of main loop'' s1)))"

subsection \<open>Sequences of operations\<close>

text \<open>
  The two operations on the table, \<open>Register\<close> and \<open>Heartbeat\<close>, are the two handlers. A
  sequence of them stops at the first that aborts.
\<close>

datatype 'd operation = Register "'d RegistrationMessage" | Heartbeat HeartbeatMessage

fun perform ::
  "(string \<Rightarrow> 'u) \<Rightarrow> 'd operation \<Rightarrow> ('u, 'd) Coordinator \<Rightarrow> error + ('u, 'd) Coordinator" where
  "perform gen (Register msg) s = HandleRegistrationRequest gen msg s"
| "perform gen (Heartbeat msg) s = Inr (HandleHeartbeat gen msg s)"

fun perform_all ::
  "(string \<Rightarrow> 'u) \<Rightarrow> 'd operation list \<Rightarrow> ('u, 'd) Coordinator \<Rightarrow> error + ('u, 'd) Coordinator" where
  "perform_all gen [] s = Inr s"
| "perform_all gen (x # xs) s =
     (case perform gen x s of Inl e \<Rightarrow> Inl e | Inr s1 \<Rightarrow> perform_all gen xs s1)"

subsection \<open>What is observed of a state\<close>

text \<open>
  Each call of a handler logs exactly one line, and the line tells which handler it was and
  which branch it took.
\<close>

fun registration_line :: "string \<Rightarrow> severity \<times> log_message \<Rightarrow> bool" where
  "registration_line u (INFO, RegisteringNewResource v) = (u = v)"
| "registration_line u (INFO, RegistrationAlreadyKnown v) = (u = v)"
| "registration_line u other = False"

fun heartbeat_line :: "string \<Rightarrow> severity \<times> log_message \<Rightarrow> bool" where
  "heartbeat_line u (WARNING, HeartbeatFromUnknown v) = (u = v)"
| "heartbeat_line u (INFO, HeartbeatFromResource v t) = (u = v)"
| "heartbeat_line u other = False"

text \<open>The table without its timestamps.\<close>

definition descriptors :: "('k \<times> ('d \<times> timestamp)) list \<Rightarrow> ('k \<times> 'd) list" where
  "descriptors m = map (\<lambda>e. (fst e, fst (snd e))) m"

definition StopListen_count :: "('u, 'd) Coordinator \<Rightarrow> nat" where
  "StopListen_count s = count_list (adapter_calls s) StopListen"

text \<open>The arrivals that set the exit flag, and the calls of \<open>Shutdown\<close> among arrivals.\<close>

fun sets_exit :: "('d, 'z) arrival \<Rightarrow> bool" where
  "sets_exit (Message bm) = False"
| "sets_exit Signal = True"
| "sets_exit (ShutdownCall reason) = True"

fun shutdown_calls :: "('d, 'z) arrival list \<Rightarrow> nat" where
  "shutdown_calls [] = 0"
| "shutdown_calls (Message bm # as) = shutdown_calls as"
| "shutdown_calls (Signal # as) = shutdown_calls as"
| "shutdown_calls (ShutdownCall reason # as) = Suc (shutdown_calls as)"

text \<open>
  The bodies of the main loop for the given waits, each carried out to its end, whatever
  the exit flag is.
\<close>

fun wait_through ::
  "(string \<Rightarrow> 'u) \<Rightarrow> ('d, 'z) arrival list list \<Rightarrow> ('u, 'd) Coordinator
     \<Rightarrow> error + ('u, 'd) Coordinator" where
  "wait_through gen [] s = Inr s"
| "wait_through gen (w # ws) s =
     (case AwaitNextMessage gen w (VLOG 2 HelloFromMainLoop s) of
        Inl e \<Rightarrow> Inl e
      | Inr s1 \<Rightarrow> wait_through gen ws s1)"

text \<open>The state a call has returned with, if it has returned.\<close>

definition returned :: "(error + 'a) option \<Rightarrow> 'a option" where
  "returned r = (case r of Some (Inr s) \<Rightarrow> Some s | _ \<Rightarrow> None)"

subsection \<open>A scenario\<close>

text \<open>
  For the examples a UUID is its text and a resource descriptor is a number of CPUs. The
  clock reads 100, then 150, then 300, and 350 from then on. \<open>started\<close> is a coordinator that knows no resource;
  \<open>registered_A\<close> has registered resource A with 4 CPUs at 100 and heard from it at 150.
  Then a heartbeat of B, which has not registered, and a registration of A with 8 CPUs
  follow.
\<close>

definition text_uuid :: "string \<Rightarrow> string" where
  "text_uuid u = u"

definition scenario_clock :: "nat \<Rightarrow> timestamp" where
  "scenario_clock n = (if n = 0 then 100 else if n = 1 then 150 else if n = 2 then 300 else 350)"

definition started :: "(string, nat) Coordinator" where
  "started = \<lparr>associated_resources = [], exit_flag = False, adapter_calls = [], glog = [],
              timestamps = scenario_clock, timestamps_read = 0, FLAGS_v = 0\<rparr>"

definition registered_A :: "(string, nat) Coordinator" where
  "registered_A =
     started\<lparr>associated_resources := [(''A'', (4, 150))],
             glog := [(INFO, RegisteringNewResource ''A''),
                      (INFO, HeartbeatFromResource ''A'' 100)],
             timestamps_read := 2\<rparr>"

definition register_A_4 :: "nat RegistrationMessage" where
  "register_A_4 = \<lparr>reg_uuid = ''A'', res_desc = 4\<rparr>"

definition register_A_8 :: "nat RegistrationMessage" where
  "register_A_8 = \<lparr>reg_uuid = ''A'', res_desc = 8\<rparr>"

definition register_B_2 :: "nat RegistrationMessage" where
  "register_B_2 = \<lparr>reg_uuid = ''B'', res_desc = 2\<rparr>"

definition heartbeat_A :: HeartbeatMessage where
  "heartbeat_A = \<lparr>hb_uuid = ''A''\<rparr>"

definition heartbeat_B :: HeartbeatMessage where
  "heartbeat_B = \<lparr>hb_uuid = ''B''\<rparr>"

definition message_neither :: "nat BaseMessage" where
  "message_neither = \<lparr>register_extn = None, heartbeat_extn = None\<rparr>"

definition message_both :: "nat BaseMessage" where
  "message_both = \<lparr>register_extn = Some register_A_8, heartbeat_extn = Some heartbeat_A\<rparr>"

definition message_register_A :: "nat BaseMessage" where
  "message_register_A = \<lparr>register_extn = Some register_A_8, heartbeat_extn = None\<rparr>"

definition message_register_B :: "nat BaseMessage" where
  "message_register_B = \<lparr>register_extn = Some register_B_2, heartbeat_extn = None\<rparr>"

definition message_heartbeat_A :: "nat BaseMessage" where
  "message_heartbeat_A = \<lparr>register_extn = None, heartbeat_extn = Some heartbeat_A\<rparr>"

definition connection_reset :: error_code where
  "connection_reset = \<lparr>ec_value = 104, ec_message = ''Connection reset by peer''\<rparr>"

definition listen_uri :: string where
  "listen_uri = ''tcp://localhost:9998''"

section \<open>Lemmas\<close>

subsection \<open>The table\<close>


lemma FindOrNull_None_iff: "FindOrNull m k = None \<longleftrightarrow> map_of m k = None"
  by (induction m) auto

lemma FindOrNull_None_keys: "FindOrNull m k = None \<longleftrightarrow> k \<notin> set (map fst m)"
  by (induction m) auto

lemma FindOrNull_Some_bound: "FindOrNull m k = Some i \<Longrightarrow> i < length m"
  by (induction m arbitrary: i) (auto split: if_splits)

lemma FindOrNull_Some_key: "FindOrNull m k = Some i \<Longrightarrow> fst (m ! i) = k"
  by (induction m arbitrary: i) (auto split: if_splits)

lemma FindOrNull_Some_map_of: "FindOrNull m k = Some i \<Longrightarrow> map_of m k = Some (snd (m ! i))"
  by (induction m arbitrary: i) (auto split: if_splits)

lemma map_of_Some_FindOrNull: "map_of m k = Some v \<Longrightarrow> \<exists>i. FindOrNull m k = Some i"
  using FindOrNull_None_iff [of m k] by (cases "FindOrNull m k") auto

lemma keys_set_second_at: "map fst (set_second_at m i t) = map fst m"
  by (cases "i < length m") (simp_all add: set_second_at_def map_update list_update_same_conv list_update_beyond)

lemma map_of_set_second_at_same:
  "FindOrNull m k = Some i \<Longrightarrow>
   map_of (set_second_at m i t) k = Some (fst (snd (m ! i)), t)"
  by (induction m arbitrary: i) (auto simp: set_second_at_def split: if_splits)

lemma map_of_snoc_absent: "map_of m k = None \<Longrightarrow> map_of (m @ [(k, v)]) k = Some v"
  by (simp add: map_add_def)

lemma InsertIfNotPresent_absent:
  "FindOrNull m k = None \<Longrightarrow> InsertIfNotPresent m k v = (True, m @ [(k, v)])"
  by (simp add: InsertIfNotPresent_def FindOrNull_None_keys)

lemma HandleRegistrationRequest_new:
  assumes "FindOrNull (associated_resources s) (gen (reg_uuid msg)) = None"
  shows "HandleRegistrationRequest gen msg s =
           Inr (s\<lparr>associated_resources := associated_resources s @
                      [(gen (reg_uuid msg), (res_desc msg, timestamps s (timestamps_read s)))],
                   glog := glog s @ [(INFO, RegisteringNewResource (reg_uuid msg))],
                   timestamps_read := Suc (timestamps_read s)\<rparr>)"
  using assms
  by (simp add: HandleRegistrationRequest_def LOG_def GetCurrentTimestamp_def
      InsertIfNotPresent_absent)

lemma HandleRegistrationRequest_known:
  assumes "FindOrNull (associated_resources s) (gen (reg_uuid msg)) = Some rdp"
  shows "HandleRegistrationRequest gen msg s =
           Inr (s\<lparr>associated_resources := set_second_at (associated_resources s) rdp
                      (timestamps s (timestamps_read s)),
                   glog := glog s @ [(INFO, RegistrationAlreadyKnown (reg_uuid msg))],
                   timestamps_read := Suc (timestamps_read s)\<rparr>)"
  using assms
  by (simp add: HandleRegistrationRequest_def LOG_def GetCurrentTimestamp_def)

lemma HandleHeartbeat_unknown:
  assumes "FindOrNull (associated_resources s) (gen (hb_uuid msg)) = None"
  shows "HandleHeartbeat gen msg s =
           s\<lparr>glog := glog s @ [(WARNING, HeartbeatFromUnknown (hb_uuid msg))]\<rparr>"
  using assms by (simp add: HandleHeartbeat_def LOG_def)

lemma HandleHeartbeat_known:
  assumes "FindOrNull (associated_resources s) (gen (hb_uuid msg)) = Some rdp"
  shows "HandleHeartbeat gen msg s =
           s\<lparr>associated_resources := set_second_at (associated_resources s) rdp
                      (timestamps s (timestamps_read s)),
              glog := glog s @ [(INFO, HeartbeatFromResource (hb_uuid msg)
                                         (second_at (associated_resources s) rdp))],
              timestamps_read := Suc (timestamps_read s)\<rparr>"
  using assms by (simp add: HandleHeartbeat_def LOG_def GetCurrentTimestamp_def)

lemma HandleRegistrationRequest_returns:
  "\<exists>s1. HandleRegistrationRequest gen msg s = Inr s1"
  by (cases "FindOrNull (associated_resources s) (gen (reg_uuid msg))")
    (simp_all add: HandleRegistrationRequest_new HandleRegistrationRequest_known)

lemma HandleHeartbeat_refreshes:
  assumes "map_of (associated_resources s) (gen (hb_uuid msg)) = Some (d, t)"
  shows "map_of (associated_resources (HandleHeartbeat gen msg s)) (gen (hb_uuid msg)) =
           Some (d, timestamps s (timestamps_read s))"
proof -
  from assms obtain rdp where
    f: "FindOrNull (associated_resources s) (gen (hb_uuid msg)) = Some rdp"
    using map_of_Some_FindOrNull by fastforce
  from FindOrNull_Some_map_of [OF f] assms have "fst (snd (associated_resources s ! rdp)) = d"
    by (metis fst_conv option.inject)
  with map_of_set_second_at_same [OF f] f show ?thesis
    by (simp add: HandleHeartbeat_known)
qed

lemma HandleRegistrationRequest_stores:
  "\<exists>s1. HandleRegistrationRequest gen msg s = Inr s1 \<and>
      timestamps s1 = timestamps s \<and> timestamps_read s1 = Suc (timestamps_read s) \<and>
      map_of (associated_resources s1) (gen (reg_uuid msg)) =
        Some (case map_of (associated_resources s) (gen (reg_uuid msg)) of
                None \<Rightarrow> res_desc msg
              | Some r \<Rightarrow> fst r,
              timestamps s (timestamps_read s))"
proof (cases "FindOrNull (associated_resources s) (gen (reg_uuid msg))")
  case None
  then have "map_of (associated_resources s) (gen (reg_uuid msg)) = None"
    by (simp add: FindOrNull_None_iff)
  with None show ?thesis
    by (simp add: HandleRegistrationRequest_new map_of_snoc_absent del: map_of_append)
next
  case (Some rdp)
  from FindOrNull_Some_map_of [OF Some] map_of_set_second_at_same [OF Some] Some
  show ?thesis
    by (simp add: HandleRegistrationRequest_known)
qed

lemma HandleRegistrationRequest_line:
  "HandleRegistrationRequest gen msg s = Inr s1 \<Longrightarrow>
   \<exists>l. glog s1 = glog s @ [l] \<and> registration_line (reg_uuid msg) l"
  by (cases "FindOrNull (associated_resources s) (gen (reg_uuid msg))")
    (auto simp: HandleRegistrationRequest_new HandleRegistrationRequest_known)

lemma HandleHeartbeat_line:
  "\<exists>l. glog (HandleHeartbeat gen msg s) = glog s @ [l] \<and> heartbeat_line (hb_uuid msg) l"
  by (cases "FindOrNull (associated_resources s) (gen (hb_uuid msg))")
    (auto simp: HandleHeartbeat_unknown HandleHeartbeat_known)


lemma descriptors_set_second_at: "descriptors (set_second_at m i t) = descriptors m"
  by (cases "i < length m")
    (simp_all add: descriptors_def set_second_at_def map_update list_update_same_conv
      list_update_beyond)

lemma map_fst_descriptors: "map fst (descriptors m) = map fst m"
  by (simp add: descriptors_def comp_def)

lemma map_of_descriptors: "map_of (descriptors m) k = map_option fst (map_of m k)"
  by (induction m) (auto simp: descriptors_def)

lemma perform_grows:
  "\<exists>s' new. perform gen x s = Inr s' \<and>
      descriptors (associated_resources s') = descriptors (associated_resources s) @ new \<and>
      (distinct (map fst (associated_resources s)) \<longrightarrow>
         distinct (map fst (associated_resources s')))"
proof (cases x)
  case (Register msg)
  show ?thesis
  proof (cases "FindOrNull (associated_resources s) (gen (reg_uuid msg))")
    case None
    then show ?thesis using Register
      by (simp add: HandleRegistrationRequest_new descriptors_def FindOrNull_None_keys)
  next
    case (Some rdp)
    then show ?thesis using Register
      by (simp add: HandleRegistrationRequest_known descriptors_set_second_at keys_set_second_at)
  qed
next
  case (Heartbeat msg)
  show ?thesis
  proof (cases "FindOrNull (associated_resources s) (gen (hb_uuid msg))")
    case None
    then show ?thesis using Heartbeat by (simp add: HandleHeartbeat_unknown)
  next
    case (Some rdp)
    then show ?thesis using Heartbeat
      by (simp add: HandleHeartbeat_known descriptors_set_second_at keys_set_second_at)
  qed
qed

lemma perform_all_grows:
  "\<exists>s' new. perform_all gen xs s = Inr s' \<and>
      descriptors (associated_resources s') = descriptors (associated_resources s) @ new \<and>
      (distinct (map fst (associated_resources s)) \<longrightarrow>
         distinct (map fst (associated_resources s')))"
proof (induction xs arbitrary: s)
  case Nil
  show ?case by simp
next
  case (Cons x xs)
  from perform_grows [of gen x s] obtain s1 new1 where
    1: "perform gen x s = Inr s1"
       "descriptors (associated_resources s1) = descriptors (associated_resources s) @ new1"
       "distinct (map fst (associated_resources s)) \<longrightarrow> distinct (map fst (associated_resources s1))"
    by blast
  from Cons.IH [of s1] obtain s2 new2 where
    2: "perform_all gen xs s1 = Inr s2"
       "descriptors (associated_resources s2) = descriptors (associated_resources s1) @ new2"
       "distinct (map fst (associated_resources s1)) \<longrightarrow> distinct (map fst (associated_resources s2))"
    by blast
  from 1 2 show ?case by simp
qed

lemma HandleHeartbeat_frame:
  "exit_flag (HandleHeartbeat gen msg s) = exit_flag s \<and>
   adapter_calls (HandleHeartbeat gen msg s) = adapter_calls s"
  by (cases "FindOrNull (associated_resources s) (gen (hb_uuid msg))")
    (simp_all add: HandleHeartbeat_unknown HandleHeartbeat_known)

lemma HandleRegistrationRequest_frame:
  "\<exists>s'. HandleRegistrationRequest gen msg s = Inr s' \<and> exit_flag s' = exit_flag s \<and>
      adapter_calls s' = adapter_calls s"
  by (cases "FindOrNull (associated_resources s) (gen (reg_uuid msg))")
    (simp_all add: HandleRegistrationRequest_new HandleRegistrationRequest_known)

lemma HandleIncomingMessage_frame:
  "\<exists>s'. HandleIncomingMessage gen bm s = Inr s' \<and> exit_flag s' = exit_flag s \<and>
      adapter_calls s' = adapter_calls s"
proof -
  have 1: "\<exists>s1. (case register_extn bm of None \<Rightarrow> Inr s
                 | Some msg \<Rightarrow> HandleRegistrationRequest gen msg s) = Inr s1 \<and>
             exit_flag s1 = exit_flag s \<and> adapter_calls s1 = adapter_calls s"
    using HandleRegistrationRequest_frame [of gen _ s]
    by (cases "register_extn bm") simp_all
  then obtain s1 where s1: "(case register_extn bm of None \<Rightarrow> Inr s
                 | Some msg \<Rightarrow> HandleRegistrationRequest gen msg s) = Inr s1"
     "exit_flag s1 = exit_flag s" "adapter_calls s1 = adapter_calls s"
    by blast
  show ?thesis
    using s1 HandleHeartbeat_frame [of gen _ s1]
    by (cases "heartbeat_extn bm") (simp_all add: HandleIncomingMessage_def)
qed

lemma arrive_effect:
  "\<exists>s'. arrive gen a s = Inr s' \<and> exit_flag s' = (exit_flag s \<or> sets_exit a) \<and>
      StopListen_count s' = StopListen_count s + shutdown_calls [a]"
proof (cases a)
  case (Message bm)
  then show ?thesis
    using HandleIncomingMessage_frame [of gen bm s] by (auto simp: StopListen_count_def)
next
  case Signal
  then show ?thesis by (simp add: HandleSignal_def StopListen_count_def)
next
  case (ShutdownCall reason)
  then show ?thesis
    by (simp add: Shutdown_def adapter_def LOG_def StopListen_count_def)
qed

lemma shutdown_calls_Cons: "shutdown_calls (a # as) = shutdown_calls [a] + shutdown_calls as"
  by (cases a) simp_all

lemma arrive_all_effect:
  "\<exists>s'. arrive_all gen as s = Inr s' \<and>
      exit_flag s' = (exit_flag s \<or> (\<exists>a \<in> set as. sets_exit a)) \<and>
      StopListen_count s' = StopListen_count s + shutdown_calls as"
proof (induction as arbitrary: s)
  case Nil
  show ?case by simp
next
  case (Cons a as)
  from arrive_effect [of gen a s] obtain s1 where
    1: "arrive gen a s = Inr s1" "exit_flag s1 = (exit_flag s \<or> sets_exit a)"
       "StopListen_count s1 = StopListen_count s + shutdown_calls [a]"
    by blast
  from Cons.IH [of s1] obtain s2 where
    2: "arrive_all gen as s1 = Inr s2"
       "exit_flag s2 = (exit_flag s1 \<or> (\<exists>a \<in> set as. sets_exit a))"
       "StopListen_count s2 = StopListen_count s1 + shutdown_calls as"
    by blast
  from 1 2 shutdown_calls_Cons [of a as] show ?case by auto
qed

lemma VLOG_frame:
  "exit_flag (VLOG n msg s) = exit_flag s \<and> adapter_calls (VLOG n msg s) = adapter_calls s"
  by (simp add: VLOG_def LOG_def)

lemma adapter_exit_flag: "exit_flag (adapter c s) = exit_flag s"
  by (simp add: adapter_def)

lemma StopListen_count_adapter:
  "StopListen_count (adapter c s) = StopListen_count s + (if c = StopListen then 1 else 0)"
  by (simp add: adapter_def StopListen_count_def)

lemma StopListen_count_VLOG: "StopListen_count (VLOG n msg s) = StopListen_count s"
  by (simp add: StopListen_count_def VLOG_frame)

lemma AwaitNextMessage_effect:
  "\<exists>s'. AwaitNextMessage gen w (VLOG 2 HelloFromMainLoop s) = Inr s' \<and>
      exit_flag s' = (exit_flag s \<or> (\<exists>a \<in> set w. sets_exit a)) \<and>
      StopListen_count s' = StopListen_count s + shutdown_calls w"
  using arrive_all_effect
    [of gen w "adapter AdapterAwaitNextMessage
                 (VLOG 2 WaitingForNextMessage (VLOG 2 HelloFromMainLoop s))"]
  by (simp add: AwaitNextMessage_def adapter_exit_flag StopListen_count_adapter
      StopListen_count_VLOG VLOG_frame)

lemma quiet_no_shutdown_calls: "\<forall>a \<in> set w. \<not> sets_exit a \<Longrightarrow> shutdown_calls w = 0"
  by (induction w rule: shutdown_calls.induct) simp_all

lemma main_loop_quiet:
  assumes "\<not> exit_flag s" and "\<forall>w \<in> set before. \<forall>a \<in> set w. \<not> sets_exit a"
  shows "\<exists>s1. wait_through gen before s = Inr s1 \<and> \<not> exit_flag s1 \<and>
           StopListen_count s1 = StopListen_count s \<and>
           main_loop gen (before @ rest) s = main_loop gen rest s1"
  using assms
proof (induction before arbitrary: s)
  case Nil
  then show ?case by simp
next
  case (Cons w ws)
  from Cons.prems have q: "\<forall>a \<in> set w. \<not> sets_exit a" by simp
  from AwaitNextMessage_effect [of gen w s] obtain s1 where
    1: "AwaitNextMessage gen w (VLOG 2 HelloFromMainLoop s) = Inr s1"
       "exit_flag s1 = (exit_flag s \<or> (\<exists>a \<in> set w. sets_exit a))"
       "StopListen_count s1 = StopListen_count s + shutdown_calls w"
    by blast
  with q Cons.prems(1) have n: "\<not> exit_flag s1" by simp
  from Cons.prems have "\<forall>w \<in> set ws. \<forall>a \<in> set w. \<not> sets_exit a" by simp
  from Cons.IH [OF n this] obtain s2 where
    2: "wait_through gen ws s1 = Inr s2" "\<not> exit_flag s2"
       "StopListen_count s2 = StopListen_count s1"
       "main_loop gen (ws @ rest) s1 = main_loop gen rest s2"
    by blast
  from 1 2 Cons.prems(1) quiet_no_shutdown_calls [OF q] show ?case by simp
qed

lemma wait_through_append:
  "wait_through gen before s = Inr s1 \<Longrightarrow>
   wait_through gen (before @ ws) s = wait_through gen ws s1"
  by (induction before arbitrary: s) (auto split: sum.splits)

subsection \<open>The scenario, computed\<close>

lemma scenario_registered_A:
  "perform_all text_uuid [Register register_A_4, Heartbeat heartbeat_A] started =
     Inr registered_A"
  by (simp add: Let_def HandleRegistrationRequest_def HandleHeartbeat_def InsertIfNotPresent_def
      GetCurrentTimestamp_def LOG_def second_at_def set_second_at_def text_uuid_def
      started_def registered_A_def register_A_4_def heartbeat_A_def scenario_clock_def)

lemma scenario_end:
  "perform_all text_uuid [Heartbeat heartbeat_B, Register register_A_8] registered_A =
     Inr (registered_A\<lparr>associated_resources := [(''A'', (4, 300))],
            glog := glog registered_A @
              [(WARNING, HeartbeatFromUnknown ''B''), (INFO, RegistrationAlreadyKnown ''A'')],
            timestamps_read := 3\<rparr>)"
  by (simp add: Let_def HandleRegistrationRequest_def HandleHeartbeat_def InsertIfNotPresent_def
      GetCurrentTimestamp_def LOG_def second_at_def set_second_at_def text_uuid_def
      started_def registered_A_def register_A_8_def heartbeat_B_def scenario_clock_def)

section \<open>The claims\<close>

text \<open>
  C1. When the identity of a registration is already in the table with descriptor \<open>d1\<close>,
  the handler returns, the record of the identity has descriptor \<open>d1\<close> still, whatever
  descriptor the message brings, and its timestamp is the time the handler has read. The
  handler logs that it knows the resource already.
\<close>

theorem reregistration_keeps_descriptor:
  assumes "map_of (associated_resources s) (gen (reg_uuid msg)) = Some (d1, t1)"
  shows "\<exists>s'. HandleRegistrationRequest gen msg s = Inr s' \<and>
           map_of (associated_resources s') (gen (reg_uuid msg)) =
             Some (d1, timestamps s (timestamps_read s)) \<and>
           glog s' = glog s @ [(INFO, RegistrationAlreadyKnown (reg_uuid msg))]"
proof -
  from assms obtain rdp where
    f: "FindOrNull (associated_resources s) (gen (reg_uuid msg)) = Some rdp"
    using map_of_Some_FindOrNull by fastforce
  from FindOrNull_Some_map_of [OF f] assms have "fst (snd (associated_resources s ! rdp)) = d1"
    by (metis fst_conv option.inject)
  with map_of_set_second_at_same [OF f] f show ?thesis
    by (simp add: HandleRegistrationRequest_known)
qed

theorem reregistration_keeps_descriptor_witness:
  "map_of (associated_resources registered_A) (text_uuid (reg_uuid register_A_8)) = Some (4, 150) \<and>
   (\<exists>s'. HandleRegistrationRequest text_uuid register_A_8 registered_A = Inr s' \<and>
      map_of (associated_resources s') (text_uuid (reg_uuid register_A_8)) =
        Some (4, timestamps registered_A (timestamps_read registered_A)) \<and>
      glog s' = glog registered_A @ [(INFO, RegistrationAlreadyKnown (reg_uuid register_A_8))])"
proof -
  have h: "map_of (associated_resources registered_A) (text_uuid (reg_uuid register_A_8)) =
             Some (4, 150)"
    by (simp add: registered_A_def started_def register_A_8_def text_uuid_def)
  from h reregistration_keeps_descriptor
    [where s = registered_A and gen = text_uuid and msg = register_A_8, OF h]
  show ?thesis by (rule conjI)
qed

text \<open>
  C2. When a message carries both a registration and a heartbeat, the registration handler
  runs on the state the message found and returns, and the result of the dispatch is what
  the heartbeat handler makes of the state the registration handler returned. The log has
  grown by exactly two lines: one of the registration handler, then one of the heartbeat
  handler. Each handler logs one line for each of its calls, so each has run once.
\<close>

theorem registration_before_heartbeat:
  assumes "register_extn bm = Some rm" and "heartbeat_extn bm = Some hm"
  shows "\<exists>s1 l1 l2. HandleRegistrationRequest gen rm s = Inr s1 \<and>
           HandleIncomingMessage gen bm s = Inr (HandleHeartbeat gen hm s1) \<and>
           glog (HandleHeartbeat gen hm s1) = glog s @ [l1, l2] \<and>
           registration_line (reg_uuid rm) l1 \<and> heartbeat_line (hb_uuid hm) l2"
proof -
  obtain s1 where r: "HandleRegistrationRequest gen rm s = Inr s1"
    using HandleRegistrationRequest_returns by blast
  from HandleRegistrationRequest_line [OF r] obtain l1 where
    l1: "glog s1 = glog s @ [l1]" "registration_line (reg_uuid rm) l1" by blast
  from HandleHeartbeat_line [of gen hm s1] obtain l2 where
    l2: "glog (HandleHeartbeat gen hm s1) = glog s1 @ [l2]" "heartbeat_line (hb_uuid hm) l2"
    by blast
  have "HandleIncomingMessage gen bm s = Inr (HandleHeartbeat gen hm s1)"
    using assms r by (simp add: HandleIncomingMessage_def)
  moreover from l1 l2 have "glog (HandleHeartbeat gen hm s1) = glog s @ [l1, l2]"
    by simp
  ultimately show ?thesis using r l1(2) l2(2) by blast
qed

theorem registration_before_heartbeat_witness:
  "register_extn message_both = Some register_A_8 \<and>
   heartbeat_extn message_both = Some heartbeat_A \<and>
   (\<exists>s1 l1 l2. HandleRegistrationRequest text_uuid register_A_8 started = Inr s1 \<and>
      HandleIncomingMessage text_uuid message_both started =
        Inr (HandleHeartbeat text_uuid heartbeat_A s1) \<and>
      glog (HandleHeartbeat text_uuid heartbeat_A s1) = glog started @ [l1, l2] \<and>
      registration_line (reg_uuid register_A_8) l1 \<and> heartbeat_line (hb_uuid heartbeat_A) l2)"
proof -
  have h1: "register_extn message_both = Some register_A_8"
    by (simp add: message_both_def)
  have h2: "heartbeat_extn message_both = Some heartbeat_A"
    by (simp add: message_both_def)
  from registration_before_heartbeat
    [where bm = message_both and rm = register_A_8 and hm = heartbeat_A and gen = text_uuid
       and s = started, OF h1 h2]
  have "\<exists>s1 l1 l2. HandleRegistrationRequest text_uuid register_A_8 started = Inr s1 \<and>
      HandleIncomingMessage text_uuid message_both started =
        Inr (HandleHeartbeat text_uuid heartbeat_A s1) \<and>
      glog (HandleHeartbeat text_uuid heartbeat_A s1) = glog started @ [l1, l2] \<and>
      registration_line (reg_uuid register_A_8) l1 \<and> heartbeat_line (hb_uuid heartbeat_A) l2" .
  with h1 h2 show ?thesis by (intro conjI) (assumption+)
qed

text \<open>
  C3. When the identity of a heartbeat is not in the table, the handler logs one warning and
  changes nothing else: the table, the exit flag and all the rest of the state are as they
  were. The handler has no branch that aborts, so it returns.
\<close>

theorem heartbeat_unknown_no_change:
  assumes "map_of (associated_resources s) (gen (hb_uuid msg)) = None"
  shows "HandleHeartbeat gen msg s = LOG WARNING (HeartbeatFromUnknown (hb_uuid msg)) s \<and>
         associated_resources (HandleHeartbeat gen msg s) = associated_resources s \<and>
         glog (HandleHeartbeat gen msg s) =
           glog s @ [(WARNING, HeartbeatFromUnknown (hb_uuid msg))] \<and>
         exit_flag (HandleHeartbeat gen msg s) = exit_flag s"
  using assms by (simp add: HandleHeartbeat_unknown FindOrNull_None_iff LOG_def)

theorem heartbeat_unknown_no_change_witness:
  "map_of (associated_resources registered_A) (text_uuid (hb_uuid heartbeat_B)) = None \<and>
   (HandleHeartbeat text_uuid heartbeat_B registered_A =
      LOG WARNING (HeartbeatFromUnknown (hb_uuid heartbeat_B)) registered_A \<and>
    associated_resources (HandleHeartbeat text_uuid heartbeat_B registered_A) =
      associated_resources registered_A \<and>
    glog (HandleHeartbeat text_uuid heartbeat_B registered_A) =
      glog registered_A @ [(WARNING, HeartbeatFromUnknown (hb_uuid heartbeat_B))] \<and>
    exit_flag (HandleHeartbeat text_uuid heartbeat_B registered_A) = exit_flag registered_A)"
proof -
  have h: "map_of (associated_resources registered_A) (text_uuid (hb_uuid heartbeat_B)) = None"
    by (simp add: registered_A_def started_def heartbeat_B_def text_uuid_def)
  from h heartbeat_unknown_no_change
    [where s = registered_A and gen = text_uuid and msg = heartbeat_B, OF h]
  show ?thesis by (rule conjI)
qed

text \<open>
  C4. When the identity of a registration is not in the table, the handler returns, the
  table has one more entry, for that identity, with the descriptor of the message and the
  time the handler has read, and the handler logs that it registers a new resource.
\<close>

theorem registration_new_inserts:
  assumes "map_of (associated_resources s) (gen (reg_uuid msg)) = None"
  shows "\<exists>s'. HandleRegistrationRequest gen msg s = Inr s' \<and>
           associated_resources s' = associated_resources s @
             [(gen (reg_uuid msg), (res_desc msg, timestamps s (timestamps_read s)))] \<and>
           map_of (associated_resources s') (gen (reg_uuid msg)) =
             Some (res_desc msg, timestamps s (timestamps_read s)) \<and>
           glog s' = glog s @ [(INFO, RegisteringNewResource (reg_uuid msg))]"
  using assms
  by (simp add: HandleRegistrationRequest_new FindOrNull_None_iff map_of_snoc_absent
      del: map_of_append)

theorem registration_new_inserts_witness:
  "map_of (associated_resources registered_A) (text_uuid (reg_uuid register_B_2)) = None \<and>
   (\<exists>s'. HandleRegistrationRequest text_uuid register_B_2 registered_A = Inr s' \<and>
      associated_resources s' = associated_resources registered_A @
        [(text_uuid (reg_uuid register_B_2),
          (res_desc register_B_2, timestamps registered_A (timestamps_read registered_A)))] \<and>
      map_of (associated_resources s') (text_uuid (reg_uuid register_B_2)) =
        Some (res_desc register_B_2, timestamps registered_A (timestamps_read registered_A)) \<and>
      glog s' = glog registered_A @ [(INFO, RegisteringNewResource (reg_uuid register_B_2))])"
proof -
  have h: "map_of (associated_resources registered_A) (text_uuid (reg_uuid register_B_2)) = None"
    by (simp add: registered_A_def started_def register_B_2_def text_uuid_def)
  from h registration_new_inserts
    [where s = registered_A and gen = text_uuid and msg = register_B_2, OF h]
  show ?thesis by (rule conjI)
qed

text \<open>
  C5, as the source has it. A registration for an identity that the table has already
  leaves the stored descriptor as it is. In \<open>registered_A\<close> resource A is stored with 4 CPUs.
  Registering A with 8 CPUs, at time 300, and then a heartbeat for A, at the later time 350,
  leave the record of A equal to 4 CPUs and 350, not to 8 CPUs and 350.
\<close>

theorem reregister_then_heartbeat_keeps_descriptor:
  "perform_all text_uuid [Register register_A_8, Heartbeat heartbeat_A] registered_A =
     Inr (registered_A\<lparr>associated_resources := [(''A'', (4, 350))],
            glog := glog registered_A @
              [(INFO, RegistrationAlreadyKnown ''A''), (INFO, HeartbeatFromResource ''A'' 300)],
            timestamps_read := 4\<rparr>) \<and>
   res_desc register_A_8 = 8 \<and>
   map_of [(''A'', (4 :: nat, 350 :: timestamp))] ''A'' \<noteq> Some (res_desc register_A_8, 350)"
  by (simp add: Let_def HandleRegistrationRequest_def HandleHeartbeat_def InsertIfNotPresent_def
      GetCurrentTimestamp_def LOG_def second_at_def set_second_at_def text_uuid_def
      started_def registered_A_def register_A_8_def heartbeat_A_def scenario_clock_def)

text \<open>
  C5, amended. For every identity and descriptor \<open>d\<close>, in every state: the registration
  handler returns, and the record of the identity then has the time \<open>t\<close> the handler has
  read and the descriptor \<open>d\<close> when the table did not have the identity before, the
  descriptor that was stored for it otherwise. A heartbeat for the same identity after it
  leaves the record with that same descriptor and the time \<open>t2\<close> that the heartbeat handler
  reads, which is the next reading of the clock. So the record is \<open>d\<close> with \<open>t2\<close> for every
  identity that was not registered before.
\<close>

theorem register_then_heartbeat:
  assumes "gen (hb_uuid hm) = gen (reg_uuid rm)"
  shows "\<exists>s1. HandleRegistrationRequest gen rm s = Inr s1 \<and>
           map_of (associated_resources s1) (gen (reg_uuid rm)) =
             Some (case map_of (associated_resources s) (gen (reg_uuid rm)) of
                     None \<Rightarrow> res_desc rm
                   | Some r \<Rightarrow> fst r,
                   timestamps s (timestamps_read s)) \<and>
           map_of (associated_resources (HandleHeartbeat gen hm s1)) (gen (reg_uuid rm)) =
             Some (case map_of (associated_resources s) (gen (reg_uuid rm)) of
                     None \<Rightarrow> res_desc rm
                   | Some r \<Rightarrow> fst r,
                   timestamps s (Suc (timestamps_read s)))"
proof -
  from HandleRegistrationRequest_stores [of gen rm s] obtain s1 where
    r: "HandleRegistrationRequest gen rm s = Inr s1"
    and c: "timestamps s1 = timestamps s" "timestamps_read s1 = Suc (timestamps_read s)"
    and m: "map_of (associated_resources s1) (gen (reg_uuid rm)) =
        Some (case map_of (associated_resources s) (gen (reg_uuid rm)) of
                None \<Rightarrow> res_desc rm
              | Some r \<Rightarrow> fst r,
              timestamps s (timestamps_read s))"
    by blast
  from m assms have "map_of (associated_resources s1) (gen (hb_uuid hm)) =
        Some (case map_of (associated_resources s) (gen (reg_uuid rm)) of
                None \<Rightarrow> res_desc rm
              | Some r \<Rightarrow> fst r,
              timestamps s (timestamps_read s))"
    by simp
  from HandleHeartbeat_refreshes [where gen = gen and msg = hm and s = s1, OF this] assms c
  have "map_of (associated_resources (HandleHeartbeat gen hm s1)) (gen (reg_uuid rm)) =
          Some (case map_of (associated_resources s) (gen (reg_uuid rm)) of
                  None \<Rightarrow> res_desc rm
                | Some r \<Rightarrow> fst r,
                timestamps s (Suc (timestamps_read s)))"
    by simp
  with r m show ?thesis by blast
qed

theorem register_then_heartbeat_witness:
  "text_uuid (hb_uuid heartbeat_A) = text_uuid (reg_uuid register_A_8) \<and>
   map_of (associated_resources started) (text_uuid (reg_uuid register_A_8)) = None \<and>
   (\<exists>s1. HandleRegistrationRequest text_uuid register_A_8 started = Inr s1 \<and>
      map_of (associated_resources s1) (text_uuid (reg_uuid register_A_8)) = Some (8, 100) \<and>
      map_of (associated_resources (HandleHeartbeat text_uuid heartbeat_A s1))
          (text_uuid (reg_uuid register_A_8)) = Some (8, 150))"
proof -
  have h: "text_uuid (hb_uuid heartbeat_A) = text_uuid (reg_uuid register_A_8)"
    by (simp add: heartbeat_A_def register_A_8_def)
  have a: "map_of (associated_resources started) (text_uuid (reg_uuid register_A_8)) = None"
    by (simp add: started_def)
  have v: "res_desc register_A_8 = 8" "timestamps started (timestamps_read started) = 100"
    "timestamps started (Suc (timestamps_read started)) = 150"
    by (simp_all add: register_A_8_def started_def scenario_clock_def)
  from register_then_heartbeat
    [where s = started and gen = text_uuid and rm = register_A_8 and hm = heartbeat_A, OF h]
  have "\<exists>s1. HandleRegistrationRequest text_uuid register_A_8 started = Inr s1 \<and>
      map_of (associated_resources s1) (text_uuid (reg_uuid register_A_8)) = Some (8, 100) \<and>
      map_of (associated_resources (HandleHeartbeat text_uuid heartbeat_A s1))
          (text_uuid (reg_uuid register_A_8)) = Some (8, 150)"
    by (simp only: a v option.case)
  with h a show ?thesis by (intro conjI) (assumption+)
qed

text \<open>
  C6. When a message carries neither a registration nor a heartbeat, the dispatch returns
  the state it was given: no line is logged, the clock is not read, the table is the same,
  and nothing aborts.
\<close>

theorem no_extension_no_op:
  assumes "register_extn bm = None" and "heartbeat_extn bm = None"
  shows "HandleIncomingMessage gen bm s = Inr s"
  using assms by (simp add: HandleIncomingMessage_def)

theorem no_extension_no_op_witness:
  "register_extn message_neither = None \<and> heartbeat_extn message_neither = None \<and>
   HandleIncomingMessage text_uuid message_neither registered_A = Inr registered_A"
proof -
  have h1: "register_extn message_neither = None" by (simp add: message_neither_def)
  have h2: "heartbeat_extn message_neither = None" by (simp add: message_neither_def)
  from h1 h2 no_extension_no_op
    [where bm = message_neither and gen = text_uuid and s = registered_A, OF h1 h2]
  show ?thesis by (intro conjI) (assumption+)
qed

text \<open>
  C7. From a table with at most one entry for each identity, every sequence of
  registrations and heartbeats returns, and in the table it leaves there is again at most
  one entry for each identity. Every identity that had an entry has one still, with the
  descriptor it had: no operation removes an entry.
\<close>

theorem one_record_per_identity:
  assumes "distinct (map fst (associated_resources s))"
  shows "\<exists>s'. perform_all gen ops s = Inr s' \<and>
           distinct (map fst (associated_resources s')) \<and>
           set (map fst (associated_resources s)) \<subseteq> set (map fst (associated_resources s')) \<and>
           (\<forall>k d t. map_of (associated_resources s) k = Some (d, t) \<longrightarrow>
                (\<exists>t'. map_of (associated_resources s') k = Some (d, t')))"
proof -
  from perform_all_grows [of gen ops s] assms obtain s' new where
    r: "perform_all gen ops s = Inr s'"
    and g: "descriptors (associated_resources s') = descriptors (associated_resources s) @ new"
    and d: "distinct (map fst (associated_resources s'))"
    by blast
  from g have "map fst (descriptors (associated_resources s')) =
                 map fst (descriptors (associated_resources s)) @ map fst new"
    by simp
  then have keys: "map fst (associated_resources s') = map fst (associated_resources s) @ map fst new"
    by (simp only: map_fst_descriptors)
  have kept: "\<exists>t'. map_of (associated_resources s') k = Some (d, t')"
    if "map_of (associated_resources s) k = Some (d, t)" for k d t
  proof -
    from that have "map_of (descriptors (associated_resources s)) k = Some d"
      by (simp add: map_of_descriptors)
    then have "map_of (descriptors (associated_resources s')) k = Some d"
      by (simp add: g map_add_def)
    then show ?thesis
      by (auto simp: map_of_descriptors)
  qed
  from keys have "set (map fst (associated_resources s)) \<subseteq> set (map fst (associated_resources s'))"
    by (metis set_append Un_upper1)
  with r d kept show ?thesis by blast
qed

theorem one_record_per_identity_witness:
  "distinct (map fst (associated_resources registered_A)) \<and>
   (\<exists>s'. perform_all text_uuid
            [Register register_B_2, Heartbeat heartbeat_A, Register register_A_8] registered_A =
            Inr s' \<and>
      distinct (map fst (associated_resources s')) \<and>
      set (map fst (associated_resources registered_A)) \<subseteq> set (map fst (associated_resources s')) \<and>
      (\<forall>k d t. map_of (associated_resources registered_A) k = Some (d, t) \<longrightarrow>
           (\<exists>t'. map_of (associated_resources s') k = Some (d, t'))))"
proof -
  have h: "distinct (map fst (associated_resources registered_A))"
    by (simp add: registered_A_def started_def)
  from h one_record_per_identity
    [where s = registered_A and gen = text_uuid
       and ops = "[Register register_B_2, Heartbeat heartbeat_A, Register register_A_8]", OF h]
  show ?thesis by (rule conjI)
qed

text \<open>
  C8, as the source has it. A call of \<open>Shutdown\<close> invokes \<open>StopListen\<close> itself, and \<open>Run\<close>
  calls \<open>Shutdown\<close> once more when it has left the main loop. A run that is ended by a call
  of \<open>Shutdown\<close> during its first wait therefore invokes \<open>StopListen\<close> twice.
\<close>

theorem shutdown_call_StopListen_twice:
  "map_option StopListen_count
     (returned (Run text_uuid listen_uri
        [[ShutdownCall ''requested'' :: (nat, unit) arrival]] started)) = Some 2"
  by (simp add: Run_def AwaitNextMessage_def VLOG_def LOG_def adapter_def Shutdown_def
      started_def returned_def StopListen_count_def)

text \<open>
  C8, amended. Let the exit flag be unset when \<open>Run\<close> starts, let nothing set it during the
  waits \<open>before\<close>, and let a signal or a call of \<open>Shutdown\<close> arrive during the wait \<open>w\<close>. Then
  \<open>Run\<close> returns; the wait \<open>w\<close> is carried out to its end, with everything that arrives in it
  after the flag is set; no wait after \<open>w\<close> is begun; and \<open>Run\<close> then calls \<open>Shutdown\<close>, which
  invokes \<open>StopListen\<close> once. In all, \<open>StopListen\<close> has been invoked once and once more for
  each call of \<open>Shutdown\<close> that arrived during \<open>w\<close>: exactly once when the flag was set by
  signals only.
\<close>

theorem exit_within_one_wait:
  assumes "\<not> exit_flag s"
    and "\<forall>w \<in> set before. \<forall>a \<in> set w. \<not> sets_exit a"
    and "\<exists>a \<in> set w. sets_exit a"
  shows "\<exists>s1. wait_through gen (before @ [w])
                 (adapter RegisterAsyncMessageReceiptCallback (adapter (Listen uri) s)) = Inr s1 \<and>
           Run gen uri (before @ w # after) s =
             Some (Inr (Shutdown ''dropped out of main loop'' s1)) \<and>
           StopListen_count (Shutdown ''dropped out of main loop'' s1) =
             StopListen_count s + shutdown_calls w + 1"
proof -
  let ?s0 = "adapter RegisterAsyncMessageReceiptCallback (adapter (Listen uri) s)"
  have e0: "\<not> exit_flag ?s0" and c0: "StopListen_count ?s0 = StopListen_count s"
    using assms(1) by (simp_all add: adapter_exit_flag StopListen_count_adapter)
  from main_loop_quiet [OF e0 assms(2), of gen "w # after"] obtain s1 where
    1: "wait_through gen before ?s0 = Inr s1" "\<not> exit_flag s1"
       "StopListen_count s1 = StopListen_count ?s0"
       "main_loop gen (before @ w # after) ?s0 = main_loop gen (w # after) s1"
    by blast
  from AwaitNextMessage_effect [of gen w s1] obtain s2 where
    2: "AwaitNextMessage gen w (VLOG 2 HelloFromMainLoop s1) = Inr s2"
       "exit_flag s2 = (exit_flag s1 \<or> (\<exists>a \<in> set w. sets_exit a))"
       "StopListen_count s2 = StopListen_count s1 + shutdown_calls w"
    by blast
  from 2 assms(3) have x: "exit_flag s2" by simp
  have w: "wait_through gen (before @ [w]) ?s0 = Inr s2"
    using wait_through_append [OF 1(1), of "[w]"] 2(1) by simp
  have "main_loop gen (w # after) s1 = Some (Inr s2)"
    using 1(2) 2(1) x by (cases after) simp_all
  with 1(4) have r: "Run gen uri (before @ w # after) s =
      Some (Inr (Shutdown ''dropped out of main loop'' s2))"
    by (simp add: Run_def)
  have "StopListen_count (Shutdown ''dropped out of main loop'' s2) = StopListen_count s2 + 1"
    by (simp add: Shutdown_def adapter_def LOG_def StopListen_count_def)
  with w r 2(3) 1(3) c0 show ?thesis by simp
qed

theorem exit_within_one_wait_witness:
  "\<not> exit_flag started \<and> \<not> sets_exit (Message message_register_A) \<and> sets_exit Signal \<and>
   (\<exists>s1. wait_through text_uuid
            ([[Message message_register_A]] @ [[Signal, Message message_heartbeat_A]])
            (adapter RegisterAsyncMessageReceiptCallback (adapter (Listen listen_uri) started)) =
            Inr s1 \<and>
      Run text_uuid listen_uri
        ([[Message message_register_A]] @ [Signal, Message message_heartbeat_A] #
         [[Message message_register_B]]) started =
        Some (Inr (Shutdown ''dropped out of main loop'' s1)) \<and>
      StopListen_count (Shutdown ''dropped out of main loop'' s1) =
        StopListen_count started + shutdown_calls [Signal, Message message_heartbeat_A] + 1)"
proof -
  have h1: "\<not> exit_flag started" by (simp add: started_def)
  have h2: "\<forall>w \<in> set [[Message message_register_A]]. \<forall>a \<in> set w. \<not> sets_exit a" by simp
  have h3: "\<exists>a \<in> set [Signal, Message message_heartbeat_A]. sets_exit a" by simp
  from exit_within_one_wait
    [where s = started and before = "[[Message message_register_A]]"
       and w = "[Signal, Message message_heartbeat_A]"
       and after = "[[Message message_register_B]]"
       and gen = text_uuid and uri = listen_uri, OF h1 h2 h3]
  have "\<exists>s1. wait_through text_uuid
            ([[Message message_register_A]] @ [[Signal, Message message_heartbeat_A]])
            (adapter RegisterAsyncMessageReceiptCallback (adapter (Listen listen_uri) started)) =
            Inr s1 \<and>
      Run text_uuid listen_uri
        ([[Message message_register_A]] @ [Signal, Message message_heartbeat_A] #
         [[Message message_register_B]]) started =
        Some (Inr (Shutdown ''dropped out of main loop'' s1)) \<and>
      StopListen_count (Shutdown ''dropped out of main loop'' s1) =
        StopListen_count started + shutdown_calls [Signal, Message message_heartbeat_A] + 1" .
  with h1 show ?thesis by simp
qed

text \<open>
  C9. When the error code of an asynchronous receive is set, \<open>HandleRecv\<close> logs one warning
  with the message of the error and returns. The message is not dispatched: no handler has
  logged a line or read the clock, the table is the same, and the exit flag is the same, so
  the main loop goes on as it would have.
\<close>

theorem receive_error_dropped:
  assumes "ec_value err \<noteq> 0"
  shows "HandleRecv gen err bytes_transferred env s =
           Inr (s\<lparr>glog := glog s @ [(WARNING, AsyncReceiveError (ec_message err))]\<rparr>)"
  using assms by (simp add: HandleRecv_def LOG_def)

theorem receive_error_dropped_witness:
  "ec_value connection_reset \<noteq> 0 \<and>
   HandleRecv text_uuid connection_reset 0 message_both registered_A =
     Inr (registered_A\<lparr>glog := glog registered_A @
            [(WARNING, AsyncReceiveError (ec_message connection_reset))]\<rparr>)"
proof -
  have h: "ec_value connection_reset \<noteq> 0" by (simp add: connection_reset_def)
  from h receive_error_dropped
    [where err = connection_reset and gen = text_uuid and bytes_transferred = 0
       and env = message_both and s = registered_A, OF h]
  show ?thesis by (rule conjI)
qed

text \<open>
  C10. \<open>SubmitJob\<close> returns the text \<open>test1234\<close> for every job descriptor, in every state:
  two submissions get the same job identifier.
\<close>

theorem SubmitJob_constant:
  "fst (SubmitJob DebugString d1 s1) = ''test1234'' \<and>
   fst (SubmitJob DebugString d2 s2) = ''test1234''"
  by (simp add: SubmitJob_def)

end
